theory Spec2Isabelle
  imports Main "HOL-Library.Multiset" "HOL-Library.Sublist"
begin

section \<open>Data model\<close>

text \<open>
  The typed records of \<^verbatim>\<open>src/types\<close> as they are used in \<^verbatim>\<open>helpers/apps.ts\<close>.
  The field \<^verbatim>\<open>value\<close> of \<^verbatim>\<open>App\<close> and \<^verbatim>\<open>AppSetting\<close> is written \<open>app_value\<close> and
  \<open>setting_value\<close>, and \<^verbatim>\<open>App.name\<close> is \<open>app_name\<close>. A timestamp is the integer number of
  milliseconds that \<^verbatim>\<open>Date.now()\<close> returns.
\<close>

record UsageHistoryItem =
  profile :: string
  app :: string
  appName :: string
  timestamp :: int

record AppSetting =
  setting_value :: string
  visible :: bool

record App =
  app_value :: string
  app_name :: string
  urlTemplate :: string

text \<open>
  \<^verbatim>\<open>LocalStorage\<close> holds one JSON blob under each of the four keys of \<^verbatim>\<open>STORAGE_KEYS\<close>.
  A key that was never written is \<open>None\<close>; a written key holds the value that
  \<^verbatim>\<open>JSON.parse\<close> gives back for what \<^verbatim>\<open>JSON.stringify\<close> wrote.
\<close>

record LocalStorage =
  usageHistory :: "UsageHistoryItem list option"
  starredHistoryItems :: "string list option"
  appSettings :: "AppSetting list option"
  customApps :: "App list option"

section \<open>String primitives\<close>

text \<open>
  Strings are lists of characters. \<^verbatim>\<open>trim\<close> removes the ASCII white space and line
  terminators (tab, line feed, vertical tab, form feed, carriage return, space) from both
  ends, \<^verbatim>\<open>toLowerCase\<close> maps the letters A to Z to a to z; characters outside ASCII are
  left as they are.
\<close>

definition isWhiteSpace :: "char \<Rightarrow> bool" where
  "isWhiteSpace c \<longleftrightarrow> (of_char c :: nat) \<in> {9, 10, 11, 12, 13, 32}"

definition lowerChar :: "char \<Rightarrow> char" where
  "lowerChar c =
     (if 65 \<le> (of_char c :: nat) \<and> (of_char c :: nat) \<le> 90
      then char_of ((of_char c :: nat) + 32) else c)"

definition toLowerCase :: "string \<Rightarrow> string" where
  "toLowerCase s = map lowerChar s"

definition trimStart :: "string \<Rightarrow> string" where
  "trimStart s = dropWhile isWhiteSpace s"

definition trimEnd :: "string \<Rightarrow> string" where
  "trimEnd s = rev (dropWhile isWhiteSpace (rev s))"

definition trim :: "string \<Rightarrow> string" where
  "trim s = trimStart (trimEnd s)"

definition startsWith :: "string \<Rightarrow> string \<Rightarrow> bool" where
  "startsWith s pre \<longleftrightarrow> prefix pre s"

definition str_includes :: "string \<Rightarrow> string \<Rightarrow> bool" where
  "str_includes s sub \<longleftrightarrow> sublist sub s"


text \<open>
  \<^verbatim>\<open>xs.slice(0, n)\<close> for an integer \<open>n\<close>: a negative end counts from the end of the array.
\<close>

definition slice0 :: "'a list \<Rightarrow> int \<Rightarrow> 'a list" where
  "slice0 xs n = (if n < 0 then take (length xs - nat (- n)) xs else take (nat n) xs)"

section \<open>Pair keys and starring (helpers/apps.ts)\<close>

definition normalizeApp :: "string \<Rightarrow> string" where
  "normalizeApp a = toLowerCase (trim a)"

definition normalizeProfile :: "string \<Rightarrow> string" where
  "normalizeProfile p =
     (let trimmed = trim p
      in toLowerCase (if startsWith trimmed ''@'' then drop 1 trimmed else trimmed))"

definition getHistoryPairKey :: "string \<Rightarrow> string \<Rightarrow> string" where
  "getHistoryPairKey p a = normalizeApp a @ ''::'' @ normalizeProfile p"

definition setStarredHistoryPairs :: "LocalStorage \<Rightarrow> string list \<Rightarrow> LocalStorage" where
  "setStarredHistoryPairs s pairs = s\<lparr>starredHistoryItems := Some pairs\<rparr>"

definition getStarredHistoryPairs :: "LocalStorage \<Rightarrow> string list" where
  "getStarredHistoryPairs s = (case starredHistoryItems s of Some pairs \<Rightarrow> pairs | None \<Rightarrow> [])"

definition isHistoryItemStarred :: "LocalStorage \<Rightarrow> string \<Rightarrow> string \<Rightarrow> bool" where
  "isHistoryItemStarred s p a =
     (let starredPairs = getStarredHistoryPairs s;
          key = getHistoryPairKey p a
      in key \<in> set starredPairs)"

text \<open>The result is the new starred state together with the storage after the call.\<close>

definition toggleStarredHistoryItem ::
  "LocalStorage \<Rightarrow> string \<Rightarrow> string \<Rightarrow> bool \<times> LocalStorage" where
  "toggleStarredHistoryItem s p a =
     (let starredPairs = getStarredHistoryPairs s;
          key = getHistoryPairKey p a
      in if key \<in> set starredPairs
         then (False, setStarredHistoryPairs s (filter (\<lambda>pair. pair \<noteq> key) starredPairs))
         else (True, setStarredHistoryPairs s (starredPairs @ [key])))"

definition clearStarredHistoryItems :: "LocalStorage \<Rightarrow> LocalStorage" where
  "clearStarredHistoryItems s = setStarredHistoryPairs s []"

section \<open>Usage history (helpers/apps.ts)\<close>

definition getUsageHistory :: "LocalStorage \<Rightarrow> UsageHistoryItem list" where
  "getUsageHistory s = (case usageHistory s of Some h \<Rightarrow> h | None \<Rightarrow> [])"

definition getCustomApps :: "LocalStorage \<Rightarrow> App list" where
  "getCustomApps s = (case customApps s of Some xs \<Rightarrow> xs | None \<Rightarrow> [])"

definition getAppSettings :: "LocalStorage \<Rightarrow> AppSetting list" where
  "getAppSettings s = (case appSettings s of Some xs \<Rightarrow> xs | None \<Rightarrow> [])"

text \<open>\<open>now\<close> is the value of \<^verbatim>\<open>Date.now()\<close> read during the call.\<close>

definition addToUsageHistory ::
  "LocalStorage \<Rightarrow> string \<Rightarrow> string \<Rightarrow> string \<Rightarrow> int \<Rightarrow> LocalStorage" where
  "addToUsageHistory s p a n now =
     (let history = getUsageHistory s;
          filtered = filter (\<lambda>item. \<not> (profile item = p \<and> app item = a)) history;
          newItem = \<lparr>profile = p, app = a, appName = n, timestamp = now\<rparr>;
          updated = take 20 (newItem # filtered)
      in s\<lparr>usageHistory := Some updated\<rparr>)"

definition removeUsageHistoryItem :: "LocalStorage \<Rightarrow> string \<Rightarrow> string \<Rightarrow> LocalStorage" where
  "removeUsageHistoryItem s p a =
     (let history = getUsageHistory s;
          filtered = filter (\<lambda>item. \<not> (profile item = p \<and> app item = a)) history
      in s\<lparr>usageHistory := Some filtered\<rparr>)"

text \<open>
  \<^verbatim>\<open>Date.now()\<close> is read once for every matching item; \<open>clock i\<close> is the value read at
  the item of index \<open>i\<close>.
\<close>

definition updateUsageHistoryItem ::
  "LocalStorage \<Rightarrow> string \<Rightarrow> string \<Rightarrow> string \<Rightarrow> (nat \<Rightarrow> int) \<Rightarrow> LocalStorage" where
  "updateUsageHistoryItem s oldProfile oldApp newProfile clock =
     (let history = getUsageHistory s;
          updated = map (\<lambda>(i, item).
                      if profile item = oldProfile \<and> app item = oldApp
                      then item\<lparr>profile := newProfile, timestamp := clock i\<rparr>
                      else item) (enumerate 0 history)
      in s\<lparr>usageHistory := Some updated\<rparr>)"

section \<open>Queries and visibility (helpers/apps.ts)\<close>

text \<open>
  The arrow function \<^verbatim>\<open>(item) => item.app.toLowerCase() === appLower ||
  item.appName.toLowerCase().includes(appLower)\<close>, which \<^verbatim>\<open>getStarredUsageHistory\<close> and
  \<^verbatim>\<open>getProfileHistory\<close> both pass to \<^verbatim>\<open>filter\<close>.
\<close>

definition appFilter :: "string \<Rightarrow> UsageHistoryItem \<Rightarrow> bool" where
  "appFilter appLower item \<longleftrightarrow>
     toLowerCase (app item) = appLower \<or> str_includes (toLowerCase (appName item)) appLower"

text \<open>
  \<^verbatim>\<open>xs.sort((a, b) => b.timestamp - a.timestamp)\<close>: \<^verbatim>\<open>Array.prototype.sort\<close> is a stable
  sort, here by descending timestamp.
\<close>

definition sortByTimestampDesc :: "UsageHistoryItem list \<Rightarrow> UsageHistoryItem list" where
  "sortByTimestampDesc xs = sort_key (\<lambda>item. - timestamp item) xs"

definition getStarredUsageHistory ::
  "LocalStorage \<Rightarrow> string option \<Rightarrow> int option \<Rightarrow> UsageHistoryItem list" where
  "getStarredUsageHistory s appArg limitArg =
     (let usageHistory = getUsageHistory s;
          starredPairs = getStarredHistoryPairs s;
          starredSet = set starredPairs;
          filtered = filter (\<lambda>item. getHistoryPairKey (profile item) (app item) \<in> starredSet)
                       usageHistory;
          filtered2 = (case appArg of
                         None \<Rightarrow> filtered
                       | Some a \<Rightarrow> if a = [] then filtered
                                  else filter (appFilter (toLowerCase a)) filtered);
          sorted = sortByTimestampDesc filtered2
      in case limitArg of Some n \<Rightarrow> slice0 sorted n | None \<Rightarrow> sorted)"

text \<open>
  \<open>defaultApps\<close> is the constant list of \<^verbatim>\<open>utils/default-apps\<close>, a parameter here.
  \<^verbatim>\<open>settingsMap\<close> is filled in list order, so a later setting replaces an earlier one for
  the same value.
\<close>

definition getAllApps :: "App list \<Rightarrow> LocalStorage \<Rightarrow> App list" where
  "getAllApps defaultApps s =
     (let customApps = getCustomApps s;
          appSettings = getAppSettings s;
          settingsMap = foldl (\<lambda>m setting. m(setting_value setting \<mapsto> setting))
                          Map.empty appSettings;
          allApps = defaultApps @ customApps
      in filter (\<lambda>ap. case settingsMap (app_value ap) of
                          Some setting \<Rightarrow> visible setting
                        | None \<Rightarrow> True) allApps)"

definition getAllAppsUnfiltered :: "App list \<Rightarrow> LocalStorage \<Rightarrow> App list" where
  "getAllAppsUnfiltered defaultApps s = defaultApps @ getCustomApps s"

section \<open>The history tool (tools/history.ts)\<close>












section \<open>Sequences of calls\<close>

text \<open>
  One call \<^verbatim>\<open>addToUsageHistory(profile, app, appName)\<close> with the clock value it reads, and
  the storage after a sequence of such calls.
\<close>

type_synonym OpenCall = "string \<times> string \<times> string \<times> int"

definition replay :: "LocalStorage \<Rightarrow> OpenCall list \<Rightarrow> LocalStorage" where
  "replay s calls = foldl (\<lambda>st (p, a, n, now). addToUsageHistory st p a n now) s calls"

definition emptyStorage :: LocalStorage where
  "emptyStorage = \<lparr>usageHistory = None, starredHistoryItems = None,
                    appSettings = None, customApps = None\<rparr>"

definition pairOf :: "UsageHistoryItem \<Rightarrow> string \<times> string" where
  "pairOf item = (profile item, app item)"

text \<open>
  The pair of the history \<open>h\<close> that the sequence of calls inserted first, and the entries of
  a history whose pair is gone from a later one.
\<close>

definition firstInserted :: "OpenCall list \<Rightarrow> UsageHistoryItem list \<Rightarrow> (string \<times> string) option" where
  "firstInserted calls h =
     find (\<lambda>pr. pr \<in> set (map pairOf h)) (map (\<lambda>(p, a, n, now). (p, a)) calls)"

definition droppedEntries :: "UsageHistoryItem list \<Rightarrow> UsageHistoryItem list \<Rightarrow> UsageHistoryItem list" where
  "droppedEntries earlier later = filter (\<lambda>item. pairOf item \<notin> set (map pairOf later)) earlier"

text \<open>
  The history as a move-to-front list without a bound: every call puts its pair at the
  front and removes the pair's older entry.
\<close>

definition moveToFront :: "OpenCall list \<Rightarrow> UsageHistoryItem list" where
  "moveToFront calls =
     foldl (\<lambda>h (p, a, n, now).
              \<lparr>profile = p, app = a, appName = n, timestamp = now\<rparr>
              # filter (\<lambda>item. \<not> (profile item = p \<and> app item = a)) h) [] calls"

text \<open>The setting that decides for an app value: the last one of the list with that value.\<close>

definition lastSetting :: "AppSetting list \<Rightarrow> string \<Rightarrow> AppSetting option" where
  "lastSetting settings v = find (\<lambda>st. setting_value st = v) (rev settings)"

section \<open>Example states\<close>

text \<open>
  Twenty calls for twenty different profiles on the app \<open>x\<close>, at the clock values 1 to 20,
  and the same calls followed by a second call for the first profile.
\<close>

definition exampleCalls :: "OpenCall list" where
  "exampleCalls = map (\<lambda>k. (replicate k (CHR ''p''), ''x'', ''X'', int k)) [1..<21]"

definition reopenCalls :: "OpenCall list" where
  "reopenCalls = exampleCalls @ [(''p'', ''x'', ''X'', 21)]"


definition exampleApps :: "App list" where
  "exampleApps = [\<lparr>app_value = ''x'', app_name = ''X'', urlTemplate = ''https://x.com/{profile}''\<rparr>]"

definition conflictingSettings :: LocalStorage where
  "conflictingSettings = emptyStorage\<lparr>appSettings :=
     Some [\<lparr>setting_value = ''x'', visible = True\<rparr>, \<lparr>setting_value = ''x'', visible = False\<rparr>]\<rparr>"



definition fixedClock :: "nat \<Rightarrow> int" where
  "fixedClock i = 21"


section \<open>Insertion into the history\<close>

lemma getUsageHistory_add:
  "getUsageHistory (addToUsageHistory s p a n now) =
     take 20 (\<lparr>profile = p, app = a, appName = n, timestamp = now\<rparr>
              # filter (\<lambda>item. \<not> (profile item = p \<and> app item = a)) (getUsageHistory s))"
  by (simp add: addToUsageHistory_def getUsageHistory_def Let_def)

text \<open>
  C1. Whatever the stored history is, \<open>addToUsageHistory\<close> writes back the list made of the
  new entry \<open>{profile, app, appName, timestamp = now}\<close> followed by the first 19 of the old
  entries that remain once every entry with the same profile and app is removed; nothing
  else of the storage changes. So the new entry is at the front, no other entry has its
  pair, and the list has at most 20 entries.
\<close>

theorem addToUsageHistory_dedupe_prepend_truncate:
  "addToUsageHistory s p a n now =
     s\<lparr>usageHistory := Some (take 20
        (\<lparr>profile = p, app = a, appName = n, timestamp = now\<rparr>
         # filter (\<lambda>item. \<not> (profile item = p \<and> app item = a)) (getUsageHistory s)))\<rparr>
   \<and> getUsageHistory (addToUsageHistory s p a n now) =
     \<lparr>profile = p, app = a, appName = n, timestamp = now\<rparr>
     # take 19 (filter (\<lambda>item. \<not> (profile item = p \<and> app item = a)) (getUsageHistory s))
   \<and> list_all (\<lambda>item. \<not> (profile item = p \<and> app item = a))
        (tl (getUsageHistory (addToUsageHistory s p a n now)))
   \<and> length (getUsageHistory (addToUsageHistory s p a n now)) \<le> 20"
proof -
  let ?new = "\<lparr>profile = p, app = a, appName = n, timestamp = now\<rparr>"
  let ?kept = "filter (\<lambda>item. \<not> (profile item = p \<and> app item = a)) (getUsageHistory s)"
  have w: "addToUsageHistory s p a n now = s\<lparr>usageHistory := Some (take 20 (?new # ?kept))\<rparr>"
    by (simp add: addToUsageHistory_def Let_def)
  have g: "getUsageHistory (addToUsageHistory s p a n now) = ?new # take 19 ?kept"
    by (simp add: getUsageHistory_add take_Cons')
  have d: "list_all (\<lambda>item. \<not> (profile item = p \<and> app item = a)) (take 19 ?kept)"
    unfolding list_all_iff by (auto dest: in_set_takeD)
  have l: "length (getUsageHistory (addToUsageHistory s p a n now)) \<le> 20"
    by (simp add: getUsageHistory_add)
  from w g d l show ?thesis by simp
qed

section \<open>The bound of 20 entries\<close>

lemma length_update:
  "length (getUsageHistory (updateUsageHistoryItem s op oa np clock)) = length (getUsageHistory s)"
  by (simp add: updateUsageHistoryItem_def getUsageHistory_def Let_def)

lemma length_remove:
  "length (getUsageHistory (removeUsageHistoryItem s p a)) \<le> length (getUsageHistory s)"
  by (simp add: removeUsageHistoryItem_def getUsageHistory_def Let_def)

text \<open>
  C2. From a storage whose history has at most 20 entries, each of \<open>addToUsageHistory\<close>,
  \<open>removeUsageHistoryItem\<close> and \<open>updateUsageHistoryItem\<close> leaves a history of at most 20
  entries.
\<close>

theorem history_at_most_20:
  "length (getUsageHistory s) \<le> 20 \<Longrightarrow>
     length (getUsageHistory (addToUsageHistory s p a n now)) \<le> 20
   \<and> length (getUsageHistory (removeUsageHistoryItem s q b)) \<le> 20
   \<and> length (getUsageHistory (updateUsageHistoryItem s oldProfile oldApp newProfile clock)) \<le> 20"
  using length_remove [of s q b]
  by (simp add: getUsageHistory_add length_update)

theorem history_at_most_20_witness:
  "length (getUsageHistory (replay emptyStorage exampleCalls)) = 20
   \<and> length (getUsageHistory
        (addToUsageHistory (replay emptyStorage exampleCalls) ''new'' ''x'' ''X'' 21)) \<le> 20
   \<and> length (getUsageHistory
        (removeUsageHistoryItem (replay emptyStorage exampleCalls) ''pp'' ''x'')) \<le> 20
   \<and> length (getUsageHistory
        (updateUsageHistoryItem (replay emptyStorage exampleCalls) ''pp'' ''x'' ''q'' fixedClock)) \<le> 20"
proof -
  have h: "length (getUsageHistory (replay emptyStorage exampleCalls)) = 20"
    by code_simp
  then have "length (getUsageHistory (replay emptyStorage exampleCalls)) \<le> 20"
    by simp
  from history_at_most_20 [OF this, of "''new''" "''x''" "''X''" 21 "''pp''" "''x''" "''pp''" "''x''"
      "''q''" fixedClock] h
  show ?thesis by simp
qed

section \<open>Which entry the truncation drops\<close>

lemma take_filter_one:
  "length (filter (\<lambda>x. \<not> P x) xs) \<le> 1 \<Longrightarrow>
     take n (filter P (take (Suc n) xs)) = take n (filter P xs)"
proof (induction xs arbitrary: n)
  case Nil
  then show ?case by simp
next
  case (Cons x xs)
  show ?case
  proof (cases n)
    case 0
    then show ?thesis by simp
  next
    case (Suc m)
    show ?thesis
    proof (cases "P x")
      case True
      with Cons.prems have "length (filter (\<lambda>x. \<not> P x) xs) \<le> 1" by simp
      from Cons.IH [OF this, of m] True Suc show ?thesis by simp
    next
      case False
      with Cons.prems have "filter (\<lambda>x. \<not> P x) xs = []" by simp
      then have all: "\<forall>y\<in>set xs. P y" by (simp add: filter_empty_conv)
      then have a: "filter P xs = xs" by simp
      from all have "\<forall>y\<in>set (take (Suc m) xs). P y" by (auto dest: in_set_takeD)
      then have b: "filter P (take (Suc m) xs) = take (Suc m) xs" by simp
      from False Suc a b show ?thesis by simp
    qed
  qed
qed

lemma moveToFront_snoc:
  "moveToFront (calls @ [(p, a, n, now)]) =
     \<lparr>profile = p, app = a, appName = n, timestamp = now\<rparr>
     # filter (\<lambda>item. \<not> (profile item = p \<and> app item = a)) (moveToFront calls)"
  by (simp add: moveToFront_def)

lemma replay_snoc:
  "replay s (calls @ [(p, a, n, now)]) = addToUsageHistory (replay s calls) p a n now"
  by (simp add: replay_def)

lemma distinct_moveToFront: "distinct (map pairOf (moveToFront calls))"
proof (induction calls rule: rev_induct)
  case Nil
  then show ?case by (simp add: moveToFront_def)
next
  case (snoc c calls)
  obtain p a n now where c: "c = (p, a, n, now)" by (cases c) auto
  let ?kept = "filter (\<lambda>item. \<not> (profile item = p \<and> app item = a)) (moveToFront calls)"
  have d: "distinct (map pairOf ?kept)"
    using snoc.IH by (rule distinct_map_filter)
  have "\<forall>item\<in>set ?kept. pairOf item \<noteq> (p, a)"
    by (simp add: pairOf_def)
  then have n: "(p, a) \<notin> set (map pairOf ?kept)"
    by (auto simp: image_iff)
  have "pairOf \<lparr>profile = p, app = a, appName = n, timestamp = now\<rparr> = (p, a)"
    by (simp add: pairOf_def)
  with d n show ?case
    unfolding c moveToFront_snoc by simp
qed

lemma distinct_pairs_filter_le1:
  "distinct (map pairOf h) \<Longrightarrow>
     length (filter (\<lambda>item. \<not> \<not> (profile item = p \<and> app item = a)) h) \<le> 1"
proof (induction h)
  case Nil
  then show ?case by simp
next
  case (Cons x h)
  show ?case
  proof (cases "profile x = p \<and> app x = a")
    case True
    then have "pairOf x = (p, a)" by (simp add: pairOf_def)
    with Cons.prems have "\<forall>y\<in>set h. pairOf y \<noteq> (p, a)"
      by (auto simp: image_iff)
    then have "filter (\<lambda>item. \<not> \<not> (profile item = p \<and> app item = a)) h = []"
      by (auto simp: filter_empty_conv pairOf_def)
    with True show ?thesis by simp
  next
    case False
    from Cons.prems have "distinct (map pairOf h)" by simp
    from Cons.IH [OF this] False show ?thesis by auto
  qed
qed

text \<open>
  After any sequence of calls on an empty storage the history is the first 20 entries of
  the move-to-front list of the calls: the pairs in the order of their latest call.
\<close>

lemma replay_moveToFront:
  "getUsageHistory (replay emptyStorage calls) = take 20 (moveToFront calls)"
proof (induction calls rule: rev_induct)
  case Nil
  then show ?case by (simp add: replay_def moveToFront_def emptyStorage_def getUsageHistory_def)
next
  case (snoc c calls)
  obtain p a n now where c: "c = (p, a, n, now)" by (cases c) auto
  let ?P = "\<lambda>item. \<not> (profile item = p \<and> app item = a)"
  let ?new = "\<lparr>profile = p, app = a, appName = n, timestamp = now\<rparr>"
  have le1: "length (filter (\<lambda>x. \<not> ?P x) (moveToFront calls)) \<le> 1"
    using distinct_pairs_filter_le1 [OF distinct_moveToFront] .
  have "getUsageHistory (replay emptyStorage (calls @ [c])) =
          take 20 (?new # filter ?P (take 20 (moveToFront calls)))"
    unfolding c replay_snoc getUsageHistory_add snoc.IH ..
  also have "\<dots> = ?new # take 19 (filter ?P (take (Suc 19) (moveToFront calls)))"
    by (simp add: take_Cons')
  also have "\<dots> = ?new # take 19 (filter ?P (moveToFront calls))"
    using take_filter_one [where P = ?P, OF le1, of 19] by simp
  also have "\<dots> = take 20 (moveToFront (calls @ [c]))"
    unfolding c moveToFront_snoc by (simp add: take_Cons')
  finally show ?case .
qed

text \<open>
  C3, as stated, fails. After twenty calls for twenty profiles and a second call for the
  first of them, the history holds 20 entries and the pair inserted first is \<open>(p, x)\<close>; a
  call for a new pair then drops \<open>(pp, x)\<close>, the pair inserted second, and keeps \<open>(p, x)\<close>.
  Without the second call for \<open>(p, x)\<close> the same call drops \<open>(p, x)\<close>: which entry is
  dropped depends on the re-opening of another one.
\<close>

theorem fifo_eviction_counterexample:
  "length (getUsageHistory (replay emptyStorage reopenCalls)) = 20
   \<and> (''new'', ''x'') \<notin> set (map pairOf (getUsageHistory (replay emptyStorage reopenCalls)))
   \<and> firstInserted reopenCalls (getUsageHistory (replay emptyStorage reopenCalls)) = Some (''p'', ''x'')
   \<and> map pairOf (droppedEntries (getUsageHistory (replay emptyStorage reopenCalls))
        (getUsageHistory (addToUsageHistory (replay emptyStorage reopenCalls) ''new'' ''x'' ''X'' 22)))
      = [(''pp'', ''x'')]
   \<and> (''p'', ''x'') \<in> set (map pairOf
        (getUsageHistory (addToUsageHistory (replay emptyStorage reopenCalls) ''new'' ''x'' ''X'' 22)))
   \<and> map pairOf (droppedEntries (getUsageHistory (replay emptyStorage exampleCalls))
        (getUsageHistory (addToUsageHistory (replay emptyStorage exampleCalls) ''new'' ''x'' ''X'' 22)))
      = [(''p'', ''x'')]"
  by code_simp

text \<open>
  C3, amended. For every history of exactly 20 entries and every pair not in it,
  \<open>addToUsageHistory\<close> drops the last entry of the stored list and keeps the other 19 in
  their order behind the new entry. A call for a pair moves it to the front, so after any
  sequence of calls on an empty storage the history is the first 20 entries of the
  move-to-front list, and the last entry is the pair whose latest call is the oldest.
\<close>

theorem addToUsageHistory_drops_last:
  "length (getUsageHistory s) = 20 \<Longrightarrow> (p, a) \<notin> set (map pairOf (getUsageHistory s)) \<Longrightarrow>
     getUsageHistory (addToUsageHistory s p a n now) =
       \<lparr>profile = p, app = a, appName = n, timestamp = now\<rparr> # butlast (getUsageHistory s)
     \<and> getUsageHistory s = butlast (getUsageHistory s) @ [last (getUsageHistory s)]
     \<and> getUsageHistory (replay emptyStorage calls) = take 20 (moveToFront calls)"
proof -
  assume len: "length (getUsageHistory s) = 20"
    and absent: "(p, a) \<notin> set (map pairOf (getUsageHistory s))"
  from absent have "\<forall>item\<in>set (getUsageHistory s). \<not> (profile item = p \<and> app item = a)"
    by (auto simp: pairOf_def image_iff)
  then have f: "filter (\<lambda>item. \<not> (profile item = p \<and> app item = a)) (getUsageHistory s)
      = getUsageHistory s" by simp
  have b: "take 19 (getUsageHistory s) = butlast (getUsageHistory s)"
    using len by (simp add: butlast_conv_take)
  from len have ne: "getUsageHistory s \<noteq> []" by auto
  show ?thesis
    using f b ne by (simp add: getUsageHistory_add take_Cons' replay_moveToFront)
qed

theorem addToUsageHistory_drops_last_witness:
  "length (getUsageHistory (replay emptyStorage reopenCalls)) = 20
   \<and> (''new'', ''x'') \<notin> set (map pairOf (getUsageHistory (replay emptyStorage reopenCalls)))
   \<and> getUsageHistory (addToUsageHistory (replay emptyStorage reopenCalls) ''new'' ''x'' ''X'' 22) =
       \<lparr>profile = ''new'', app = ''x'', appName = ''X'', timestamp = 22\<rparr>
       # butlast (getUsageHistory (replay emptyStorage reopenCalls))
   \<and> last (getUsageHistory (replay emptyStorage reopenCalls)) =
       \<lparr>profile = ''pp'', app = ''x'', appName = ''X'', timestamp = 2\<rparr>"
proof -
  have h1: "length (getUsageHistory (replay emptyStorage reopenCalls)) = 20" by code_simp
  have h2: "(''new'', ''x'') \<notin> set (map pairOf (getUsageHistory (replay emptyStorage reopenCalls)))"
    by code_simp
  have h3: "last (getUsageHistory (replay emptyStorage reopenCalls)) =
       \<lparr>profile = ''pp'', app = ''x'', appName = ''X'', timestamp = 2\<rparr>" by code_simp
  from addToUsageHistory_drops_last [OF h1 h2, of "''X''" 22] h1 h2 h3 show ?thesis by blast
qed

section \<open>Starring\<close>

lemma getStarred_update:
  "getStarredHistoryPairs (s\<lparr>starredHistoryItems := Some ps\<rparr>) = ps"
  by (simp add: getStarredHistoryPairs_def)

lemma toggle_present:
  "getHistoryPairKey p a \<in> set (getStarredHistoryPairs s) \<Longrightarrow>
     toggleStarredHistoryItem s p a =
       (False, s\<lparr>starredHistoryItems :=
                  Some (filter (\<lambda>pair. pair \<noteq> getHistoryPairKey p a) (getStarredHistoryPairs s))\<rparr>)"
  by (simp add: toggleStarredHistoryItem_def Let_def setStarredHistoryPairs_def)

lemma toggle_absent:
  "getHistoryPairKey p a \<notin> set (getStarredHistoryPairs s) \<Longrightarrow>
     toggleStarredHistoryItem s p a =
       (True, s\<lparr>starredHistoryItems := Some (getStarredHistoryPairs s @ [getHistoryPairKey p a])\<rparr>)"
  by (simp add: toggleStarredHistoryItem_def Let_def setStarredHistoryPairs_def)

text \<open>
  C4. \<open>toggleStarredHistoryItem\<close> returns the negation of the pair's starred state. When the
  key is in the list it writes the list without the key, when it is not it writes the list
  with the key appended; the set of starred keys loses or gains exactly that key. A second
  call returns the old state, and after it every pair \<open>(q, b)\<close> is starred exactly when it
  was before the first call.
\<close>

theorem toggleStarredHistoryItem_membership_toggle:
  "fst (toggleStarredHistoryItem s p a) = (\<not> isHistoryItemStarred s p a)
   \<and> snd (toggleStarredHistoryItem s p a) =
       s\<lparr>starredHistoryItems := Some
           (if getHistoryPairKey p a \<in> set (getStarredHistoryPairs s)
            then filter (\<lambda>pair. pair \<noteq> getHistoryPairKey p a) (getStarredHistoryPairs s)
            else getStarredHistoryPairs s @ [getHistoryPairKey p a])\<rparr>
   \<and> set (getStarredHistoryPairs (snd (toggleStarredHistoryItem s p a))) =
       (if getHistoryPairKey p a \<in> set (getStarredHistoryPairs s)
        then set (getStarredHistoryPairs s) - {getHistoryPairKey p a}
        else insert (getHistoryPairKey p a) (set (getStarredHistoryPairs s)))
   \<and> isHistoryItemStarred (snd (toggleStarredHistoryItem s p a)) p a = (\<not> isHistoryItemStarred s p a)
   \<and> fst (toggleStarredHistoryItem (snd (toggleStarredHistoryItem s p a)) p a) = isHistoryItemStarred s p a
   \<and> isHistoryItemStarred (snd (toggleStarredHistoryItem (snd (toggleStarredHistoryItem s p a)) p a)) q b
       = isHistoryItemStarred s q b"
proof (cases "getHistoryPairKey p a \<in> set (getStarredHistoryPairs s)")
  case True
  let ?s1 = "s\<lparr>starredHistoryItems :=
                  Some (filter (\<lambda>pair. pair \<noteq> getHistoryPairKey p a) (getStarredHistoryPairs s))\<rparr>"
  have 1: "toggleStarredHistoryItem s p a = (False, ?s1)"
    using True by (rule toggle_present)
  have "getHistoryPairKey p a \<notin> set (getStarredHistoryPairs ?s1)"
    by (simp add: getStarred_update)
  from toggle_absent [OF this]
  have 2: "toggleStarredHistoryItem ?s1 p a =
      (True, ?s1\<lparr>starredHistoryItems := Some (getStarredHistoryPairs ?s1 @ [getHistoryPairKey p a])\<rparr>)" .
  show ?thesis
    using True unfolding 1 2 fst_conv snd_conv
    by (auto simp: isHistoryItemStarred_def Let_def getStarred_update)
next
  case False
  let ?s1 = "s\<lparr>starredHistoryItems := Some (getStarredHistoryPairs s @ [getHistoryPairKey p a])\<rparr>"
  have 1: "toggleStarredHistoryItem s p a = (True, ?s1)"
    using False by (rule toggle_absent)
  have "getHistoryPairKey p a \<in> set (getStarredHistoryPairs ?s1)"
    by (simp add: getStarred_update)
  from toggle_present [OF this]
  have 2: "toggleStarredHistoryItem ?s1 p a =
      (False, ?s1\<lparr>starredHistoryItems :=
                  Some (filter (\<lambda>pair. pair \<noteq> getHistoryPairKey p a) (getStarredHistoryPairs ?s1))\<rparr>)" .
  show ?thesis
    using False unfolding 1 2 fst_conv snd_conv
    by (auto simp: isHistoryItemStarred_def Let_def getStarred_update)
qed

section \<open>The starred query\<close>






text \<open>
  A negative limit follows \<^verbatim>\<open>Array.prototype.slice\<close>: it leaves out that many entries at the
  end.
\<close>

lemma starred_negative_limit:
  "0 < n \<Longrightarrow> getStarredUsageHistory s appArg (Some (- int n)) =
     take (length (getStarredUsageHistory s appArg None) - n) (getStarredUsageHistory s appArg None)"
  by (simp add: getStarredUsageHistory_def Let_def slice0_def)


section \<open>Reading keys that were never written\<close>

text \<open>
  C6. When nothing is stored under its key, each of \<open>getUsageHistory\<close>,
  \<open>getStarredHistoryPairs\<close>, \<open>getCustomApps\<close> and \<open>getAppSettings\<close> returns the empty list.
\<close>

theorem readers_fall_back_to_empty:
  "(usageHistory s = None \<longrightarrow> getUsageHistory s = [])
   \<and> (starredHistoryItems s = None \<longrightarrow> getStarredHistoryPairs s = [])
   \<and> (customApps s = None \<longrightarrow> getCustomApps s = [])
   \<and> (appSettings s = None \<longrightarrow> getAppSettings s = [])"
  by (simp add: getUsageHistory_def getStarredHistoryPairs_def getCustomApps_def getAppSettings_def)

theorem readers_fall_back_to_empty_witness:
  "usageHistory emptyStorage = None \<and> getUsageHistory emptyStorage = []
   \<and> starredHistoryItems emptyStorage = None \<and> getStarredHistoryPairs emptyStorage = []
   \<and> customApps emptyStorage = None \<and> getCustomApps emptyStorage = []
   \<and> appSettings emptyStorage = None \<and> getAppSettings emptyStorage = []"
proof -
  have e: "usageHistory emptyStorage = None" "starredHistoryItems emptyStorage = None"
    "customApps emptyStorage = None" "appSettings emptyStorage = None"
    by (simp_all add: emptyStorage_def)
  from readers_fall_back_to_empty [of emptyStorage] e show ?thesis by simp
qed

section \<open>The default limit of the list action\<close>





section \<open>Normalisation of the pair key\<close>
























section \<open>Star and unstar on a settled pair\<close>




section \<open>Visibility of apps\<close>

lemma find_append:
  "find P (xs @ ys) = (case find P xs of Some x \<Rightarrow> Some x | None \<Rightarrow> find P ys)"
  by (induction xs) auto

lemma settingsMap_lookup:
  "foldl (\<lambda>m setting. m(setting_value setting \<mapsto> setting)) m0 settings v =
     (case lastSetting settings v of Some st \<Rightarrow> Some st | None \<Rightarrow> m0 v)"
proof (induction settings arbitrary: m0)
  case Nil
  then show ?case by (simp add: lastSetting_def)
next
  case (Cons x xs)
  then show ?case
    by (auto simp: lastSetting_def find_append split: option.splits)
qed

lemma getAllApps_last:
  "getAllApps defaultApps s =
     filter (\<lambda>ap. case lastSetting (getAppSettings s) (app_value ap) of
                     Some st \<Rightarrow> visible st | None \<Rightarrow> True)
            (defaultApps @ getCustomApps s)"
  unfolding getAllApps_def Let_def settingsMap_lookup
  by (rule filter_cong) (auto split: option.splits)

lemma lastSetting_None:
  "lastSetting settings v = None \<longleftrightarrow> \<not> list_ex (\<lambda>st. setting_value st = v) settings"
  by (auto simp: lastSetting_def find_None_iff list_ex_iff)

lemma find_Some_mem: "find P xs = Some x \<Longrightarrow> x \<in> set xs \<and> P x"
  by (induction xs) (auto split: if_splits)

lemma lastSetting_Some:
  "lastSetting settings v = Some st \<Longrightarrow> st \<in> set settings \<and> setting_value st = v"
  unfolding lastSetting_def by (drule find_Some_mem) simp

text \<open>
  When no two settings have the same value, an app is left out exactly when a setting with
  its value and \<open>visible = false\<close> exists.
\<close>

lemma getAllApps_unique_settings:
  assumes "distinct (map setting_value (getAppSettings s))"
  shows "getAllApps defaultApps s =
     filter (\<lambda>ap. \<not> list_ex (\<lambda>st. setting_value st = app_value ap \<and> \<not> visible st)
                      (getAppSettings s))
            (defaultApps @ getCustomApps s)"
  unfolding getAllApps_last
proof (rule filter_cong [OF refl])
  fix ap
  show "(case lastSetting (getAppSettings s) (app_value ap) of
           Some st \<Rightarrow> visible st | None \<Rightarrow> True)
      = (\<not> list_ex (\<lambda>st. setting_value st = app_value ap \<and> \<not> visible st) (getAppSettings s))"
  proof (cases "lastSetting (getAppSettings s) (app_value ap)")
    case None
    then have "\<not> list_ex (\<lambda>st. setting_value st = app_value ap) (getAppSettings s)"
      by (simp add: lastSetting_None)
    then have "\<not> list_ex (\<lambda>st. setting_value st = app_value ap \<and> \<not> visible st)
        (getAppSettings s)"
      unfolding list_ex_iff by blast
    then show ?thesis unfolding None by simp
  next
    case (Some st)
    from lastSetting_Some [OF Some]
    have st: "st \<in> set (getAppSettings s)" "setting_value st = app_value ap" by auto
    from assms have inj: "inj_on setting_value (set (getAppSettings s))"
      by (simp add: distinct_map)
    have "\<forall>t\<in>set (getAppSettings s). setting_value t = app_value ap \<longrightarrow> t = st"
    proof (intro ballI impI)
      fix t
      assume t: "t \<in> set (getAppSettings s)" and "setting_value t = app_value ap"
      with st(2) have "setting_value t = setting_value st" by simp
      from inj this t st(1) show "t = st" by (rule inj_onD)
    qed
    then have "list_ex (\<lambda>t. setting_value t = app_value ap \<and> \<not> visible t) (getAppSettings s)
        \<longleftrightarrow> \<not> visible st"
      unfolding list_ex_iff using st by blast
    then show ?thesis unfolding Some by simp
  qed
qed

text \<open>
  C10, as stated, fails. The only app has the value \<open>x\<close>, and the settings hold a setting for
  \<open>x\<close> with \<open>visible = true\<close> followed by one for \<open>x\<close> with \<open>visible = false\<close>: the app has a
  setting with \<open>visible = true\<close>, and \<open>getAllApps\<close> returns no app.
\<close>

theorem visible_setting_counterexample:
  "map app_value exampleApps = [''x'']
   \<and> getCustomApps conflictingSettings = []
   \<and> \<lparr>setting_value = ''x'', visible = True\<rparr> \<in> set (getAppSettings conflictingSettings)
   \<and> getAllApps exampleApps conflictingSettings = []"
  by code_simp

text \<open>
  C10, amended. \<open>getAllApps\<close> returns, in the order defaults then customs, every app for
  whose value the settings hold no entry or whose last entry in the settings list has
  \<open>visible = true\<close>. So every app with no entry is returned, and an app is left out only
  when an entry with its value and \<open>visible = false\<close> exists.
\<close>

theorem getAllApps_last_setting_decides:
  "getAllApps defaultApps s =
     filter (\<lambda>ap. case lastSetting (getAppSettings s) (app_value ap) of
                     Some st \<Rightarrow> visible st | None \<Rightarrow> True)
            (defaultApps @ getCustomApps s)
   \<and> list_all (\<lambda>ap. list_ex (\<lambda>st. setting_value st = app_value ap) (getAppSettings s)
                    \<or> ap \<in> set (getAllApps defaultApps s))
        (defaultApps @ getCustomApps s)
   \<and> list_all (\<lambda>ap. ap \<in> set (getAllApps defaultApps s)
                    \<or> list_ex (\<lambda>st. setting_value st = app_value ap \<and> \<not> visible st)
                         (getAppSettings s))
        (defaultApps @ getCustomApps s)"
proof -
  let ?all = "defaultApps @ getCustomApps s"
  let ?keep = "\<lambda>ap. case lastSetting (getAppSettings s) (app_value ap) of
                     Some st \<Rightarrow> visible st | None \<Rightarrow> True"
  have 1: "getAllApps defaultApps s = filter ?keep ?all"
    by (rule getAllApps_last)
  have 2: "list_all (\<lambda>ap. list_ex (\<lambda>st. setting_value st = app_value ap) (getAppSettings s)
                    \<or> ap \<in> set (getAllApps defaultApps s)) ?all"
    unfolding 1 list_all_iff
  proof
    fix ap
    assume ap: "ap \<in> set ?all"
    show "list_ex (\<lambda>st. setting_value st = app_value ap) (getAppSettings s)
            \<or> ap \<in> set (filter ?keep ?all)"
    proof (cases "lastSetting (getAppSettings s) (app_value ap)")
      case None
      then have "?keep ap" by simp
      with ap have "ap \<in> set (filter ?keep ?all)"
        unfolding set_filter by blast
      then show ?thesis ..
    next
      case (Some st)
      from lastSetting_Some [OF Some]
      have "list_ex (\<lambda>st. setting_value st = app_value ap) (getAppSettings s)"
        unfolding list_ex_iff by blast
      then show ?thesis ..
    qed
  qed
  have 3: "list_all (\<lambda>ap. ap \<in> set (getAllApps defaultApps s)
                    \<or> list_ex (\<lambda>st. setting_value st = app_value ap \<and> \<not> visible st)
                         (getAppSettings s)) ?all"
    unfolding 1 list_all_iff
  proof
    fix ap
    assume ap: "ap \<in> set ?all"
    show "ap \<in> set (filter ?keep ?all)
            \<or> list_ex (\<lambda>st. setting_value st = app_value ap \<and> \<not> visible st) (getAppSettings s)"
    proof (cases "?keep ap")
      case True
      with ap have "ap \<in> set (filter ?keep ?all)"
        unfolding set_filter by blast
      then show ?thesis ..
    next
      case False
      then obtain st where st: "lastSetting (getAppSettings s) (app_value ap) = Some st"
        and nv: "\<not> visible st"
        by (cases "lastSetting (getAppSettings s) (app_value ap)") auto
      from lastSetting_Some [OF st] nv
      have "list_ex (\<lambda>st. setting_value st = app_value ap \<and> \<not> visible st) (getAppSettings s)"
        unfolding list_ex_iff by blast
      then show ?thesis ..
    qed
  qed
  show ?thesis by (rule conjI [OF 1 conjI [OF 2 3]])
qed

end
